theory Spec2Isabelle
  imports Main "HOL-Library.Word" "HOL-Library.List_Lexorder"
begin

unbundle bit_operations_syntax

section \<open>Bytes, slices and big-endian integers\<close>

text \<open>
  A Go \<open>[]byte\<close> is a list of 8-bit words. Where the source tests a slice against
  \<open>nil\<close> the slice is an option (\<open>None\<close> is \<open>nil\<close>). A run-time panic of the
  source is a value of \<open>error\<close>.
\<close>

type_synonym byte = "8 word"
type_synonym uint16 = "16 word"
type_synonym uint32 = "32 word"
type_synonym uint64 = "64 word"

text \<open>
  \<open>fmt.Errorf(format, args...)\<close> is kept as the format string with its arguments;
  \<open>External\<close> is an error handed back by code outside these files.
\<close>

datatype arg = ArgByte byte | ArgBytes "byte list" | ArgString string

datatype error =
    IndexOutOfRange
  | SliceBoundsOutOfRange
  | Errorf string "arg list"
  | External string

text \<open>\<open>make([]byte, n)\<close>: \<open>n\<close> zero bytes.\<close>

definition make_bytes :: "nat \<Rightarrow> byte list" where
  "make_bytes n = replicate n 0"

text \<open>
  The builtin \<open>copy(dst, src)\<close> overwrites the first \<open>min (len dst) (len src)\<close>
  elements of \<open>dst\<close>; the value is \<open>dst\<close> afterwards.
\<close>

definition copy_go :: "'a list \<Rightarrow> 'a list \<Rightarrow> 'a list" where
  "copy_go dst src = take (length dst) src @ drop (length src) dst"

text \<open>
  \<open>with_slice index lo hi f\<close> runs the in-place operation \<open>f\<close> on the window
  \<open>index[lo:hi]\<close> of the buffer \<open>index\<close> and gives the buffer afterwards. It is
  used where \<open>lo \<le> hi \<le> len index\<close> holds by construction.
\<close>

definition with_slice :: "'a list \<Rightarrow> nat \<Rightarrow> nat \<Rightarrow> ('a list \<Rightarrow> 'a list) \<Rightarrow> 'a list" where
  "with_slice index lo hi f = take lo index @ f (take (hi - lo) (drop lo index)) @ drop hi index"

text \<open>\<open>binary.BigEndian.PutUint16 / PutUint32 / PutUint64\<close>: the bytes written.\<close>

definition be16 :: "uint16 \<Rightarrow> byte list" where
  "be16 v = [ucast (drop_bit 8 v), ucast v]"

definition be32 :: "uint32 \<Rightarrow> byte list" where
  "be32 v = [ucast (drop_bit 24 v), ucast (drop_bit 16 v), ucast (drop_bit 8 v), ucast v]"

definition be64 :: "uint64 \<Rightarrow> byte list" where
  "be64 v = [ucast (drop_bit 56 v), ucast (drop_bit 48 v), ucast (drop_bit 40 v),
             ucast (drop_bit 32 v), ucast (drop_bit 24 v), ucast (drop_bit 16 v),
             ucast (drop_bit 8 v), ucast v]"

text \<open>
  \<open>PutUintN(b, v)\<close> panics when \<open>b\<close> is shorter than the integer and otherwise
  overwrites the head of \<open>b\<close>. \<open>put64 b v\<close> is the effect on a slice that is known
  to hold 8 bytes.
\<close>

definition put64 :: "byte list \<Rightarrow> uint64 \<Rightarrow> byte list" where
  "put64 b v = be64 v @ drop 8 b"

definition PutUint16 :: "byte list \<Rightarrow> uint16 \<Rightarrow> error + byte list" where
  "PutUint16 b v = (if length b < 2 then Inl IndexOutOfRange else Inr (be16 v @ drop 2 b))"

definition PutUint32 :: "byte list \<Rightarrow> uint32 \<Rightarrow> error + byte list" where
  "PutUint32 b v = (if length b < 4 then Inl IndexOutOfRange else Inr (be32 v @ drop 4 b))"

definition PutUint64 :: "byte list \<Rightarrow> uint64 \<Rightarrow> error + byte list" where
  "PutUint64 b v = (if length b < 8 then Inl IndexOutOfRange else Inr (put64 b v))"

text \<open>\<open>binary.BigEndian.Uint16 / Uint32 / Uint64\<close>: panic on a short slice.\<close>

definition Uint16 :: "byte list \<Rightarrow> error + uint16" where
  "Uint16 b = (if length b < 2 then Inl IndexOutOfRange
     else Inr (ucast (b ! 1) OR push_bit 8 (ucast (b ! 0))))"

definition Uint32 :: "byte list \<Rightarrow> error + uint32" where
  "Uint32 b = (if length b < 4 then Inl IndexOutOfRange
     else Inr (ucast (b ! 3) OR push_bit 8 (ucast (b ! 2)) OR push_bit 16 (ucast (b ! 1))
               OR push_bit 24 (ucast (b ! 0))))"

definition Uint64 :: "byte list \<Rightarrow> error + uint64" where
  "Uint64 b = (if length b < 8 then Inl IndexOutOfRange
     else Inr (ucast (b ! 7) OR push_bit 8 (ucast (b ! 6)) OR push_bit 16 (ucast (b ! 5))
               OR push_bit 24 (ucast (b ! 4)) OR push_bit 32 (ucast (b ! 3))
               OR push_bit 40 (ucast (b ! 2)) OR push_bit 48 (ucast (b ! 1))
               OR push_bit 56 (ucast (b ! 0))))"

text \<open>The unsigned number that a byte string spells in big-endian order.\<close>

fun be_val :: "byte list \<Rightarrow> nat" where
  "be_val [] = 0"
| "be_val (x # xs) = unat x * 256 ^ length xs + be_val xs"

section \<open>Key types\<close>

type_synonym KeyType = byte

definition KeyUnknown :: KeyType where "KeyUnknown = 0"
definition KeyVoxelBlock :: KeyType where "KeyVoxelBlock = 1"
definition KeyForwardMap :: KeyType where "KeyForwardMap = 2"
definition KeyInverseMap :: KeyType where "KeyInverseMap = 3"
definition KeySpatialMap :: KeyType where "KeySpatialMap = 4"
definition KeyLabelSpatialMap :: KeyType where "KeyLabelSpatialMap = 5"
definition KeyLabelSizes :: KeyType where "KeyLabelSizes = 6"
definition KeyLabelSurface :: KeyType where "KeyLabelSurface = 7"

section \<open>Index builders\<close>

definition NewForwardMapIndex :: "byte list \<Rightarrow> uint64 \<Rightarrow> byte list" where
  "NewForwardMapIndex label mapping =
     (let index = make_bytes 17;
          index = index[0 := KeyForwardMap];
          index = with_slice index 1 9 (\<lambda>d. copy_go d label);
          index = with_slice index 9 17 (\<lambda>d. put64 d mapping)
      in index)"

definition NewInverseMapIndex :: "byte list \<Rightarrow> uint64 \<Rightarrow> byte list" where
  "NewInverseMapIndex label mapping =
     (let index = make_bytes 17;
          index = index[0 := KeyInverseMap];
          index = with_slice index 1 9 (\<lambda>d. put64 d mapping);
          index = with_slice index 9 17 (\<lambda>d. copy_go d label)
      in index)"

text \<open>
  \<open>NewSpatialMapIndex\<close> takes \<open>blockIndex.Bytes()\<close>, the bytes of the block index
  (the \<open>dvid.Index\<close> interface is declared elsewhere), and a label that may be \<open>nil\<close>.
\<close>

definition NewSpatialMapIndex :: "byte list \<Rightarrow> byte list option \<Rightarrow> uint64 \<Rightarrow> byte list" where
  "NewSpatialMapIndex indexBytes label mappedLabel =
     (let sz = length indexBytes;
          index = make_bytes (1 + sz + 8 + 8);
          index = index[0 := KeySpatialMap];
          i = 1 + sz;
          index = with_slice index 1 i (\<lambda>d. copy_go d indexBytes);
          index = (case label of None \<Rightarrow> index
                   | Some l \<Rightarrow> with_slice index i (i + 8) (\<lambda>d. copy_go d l));
          index = with_slice index (i + 8) (i + 16) (\<lambda>d. put64 d mappedLabel)
      in index)"

text \<open>
  \<open>update_slice s lo hi f\<close> is an in-place operation on \<open>s[lo:hi]\<close> where the
  bounds are computed at run time: Go panics unless \<open>0 \<le> lo \<le> hi \<le> cap s\<close>.
  The buffers here come from \<open>make([]byte, n)\<close>, whose capacity is their length.
\<close>

definition update_slice ::
  "'a list \<Rightarrow> int \<Rightarrow> int \<Rightarrow> ('a list \<Rightarrow> error + 'a list) \<Rightarrow> error + 'a list" where
  "update_slice s lo hi f =
     (if 0 \<le> lo \<and> lo \<le> hi \<and> hi \<le> int (length s)
      then (case f (take (nat (hi - lo)) (drop (nat lo) s)) of
              Inl e \<Rightarrow> Inl e
            | Inr d \<Rightarrow> Inr (take (nat lo) s @ d @ drop (nat hi) s))
      else Inl SliceBoundsOutOfRange)"

text \<open>
  \<open>UpdateSpatialMapIndex\<close> mutates its receiver; the model returns the buffer
  afterwards, or the panic.
\<close>

definition UpdateSpatialMapIndex ::
  "byte list \<Rightarrow> byte list option \<Rightarrow> uint64 \<Rightarrow> error + byte list" where
  "UpdateSpatialMapIndex index label mappedLabel =
     (let spatialSize = int (length index) - 17;
          i = 1 + spatialSize
      in case (case label of None \<Rightarrow> Inr index
               | Some l \<Rightarrow> update_slice index i (i + 8) (\<lambda>d. Inr (copy_go d l))) of
           Inl e \<Rightarrow> Inl e
         | Inr index1 \<Rightarrow>
             update_slice index1 (i + 8) (i + 16) (\<lambda>d. PutUint64 d mappedLabel))"

definition NewLabelSpatialMapIndex :: "uint64 \<Rightarrow> byte list \<Rightarrow> byte list" where
  "NewLabelSpatialMapIndex label blockBytes =
     (let sz = length blockBytes;
          index = make_bytes (1 + 8 + sz);
          index = index[0 := KeyLabelSpatialMap];
          index = with_slice index 1 9 (\<lambda>d. put64 d label);
          index = with_slice index 9 (length index) (\<lambda>d. copy_go d blockBytes)
      in index)"

definition NewLabelSizesIndex :: "uint64 \<Rightarrow> uint64 \<Rightarrow> byte list" where
  "NewLabelSizesIndex size' label =
     (let index = make_bytes 17;
          index = index[0 := KeyLabelSizes];
          index = with_slice index 1 9 (\<lambda>d. put64 d size');
          index = with_slice index 9 17 (\<lambda>d. put64 d label)
      in index)"

definition NewLabelSurfaceIndex :: "uint64 \<Rightarrow> byte list" where
  "NewLabelSurfaceIndex label =
     (let index = make_bytes (1 + 8);
          index = index[0 := KeyLabelSurface];
          index = with_slice index 1 9 (\<lambda>d. put64 d label)
      in index)"

section \<open>Key decoders\<close>

text \<open>
  The decoders first strip the storage context from the key with
  \<open>storage.DataContext.IndexFromKey\<close>, which is declared outside these files and is
  a parameter here; so are \<open>dvid.IndexZYX.IndexFromBytes\<close> and the constant
  \<open>dvid.IndexZYXSize\<close>. \<open>index_at\<close> and \<open>slice_go\<close> are Go's \<open>s[i]\<close> and
  \<open>s[lo:hi]\<close> with their panics.
\<close>

definition index_at :: "'a list \<Rightarrow> nat \<Rightarrow> error + 'a" where
  "index_at s i = (if i < length s then Inr (s ! i) else Inl IndexOutOfRange)"

definition slice_go :: "'a list \<Rightarrow> nat \<Rightarrow> nat \<Rightarrow> error + 'a list" where
  "slice_go s lo hi =
     (if lo \<le> hi \<and> hi \<le> length s then Inr (take (hi - lo) (drop lo s))
      else Inl SliceBoundsOutOfRange)"

definition DecodeVoxelBlockKey ::
  "(byte list \<Rightarrow> error + byte list) \<Rightarrow> (byte list \<Rightarrow> error + 'zyx) \<Rightarrow> byte list \<Rightarrow> error + 'zyx" where
  "DecodeVoxelBlockKey IndexFromKey IndexFromBytes key =
     (case IndexFromKey key of
        Inl err \<Rightarrow> Inl err
      | Inr index \<Rightarrow>
          (case index_at index 0 of
             Inl p \<Rightarrow> Inl p
           | Inr t \<Rightarrow>
               if t \<noteq> KeyVoxelBlock
               then Inl (Errorf ''Expected KeyVoxelBlock index, got %d byte instead'' [ArgByte t])
               else (case slice_go index 1 (length index) of
                       Inl p \<Rightarrow> Inl p
                     | Inr rest \<Rightarrow>
                         (case IndexFromBytes rest of
                            Inl (External msg) \<Rightarrow>
                              Inl (Errorf ''Cannot recover ZYX index from key %v: %s\<newline>''
                                     [ArgBytes key, ArgString msg])
                          | Inl e \<Rightarrow> Inl e
                          | Inr zyx \<Rightarrow> Inr zyx))))"

definition DecodeSpatialMapKey ::
  "(byte list \<Rightarrow> error + byte list) \<Rightarrow> nat \<Rightarrow> byte list \<Rightarrow> error + (byte list \<times> uint64)" where
  "DecodeSpatialMapKey IndexFromKey IndexZYXSize key =
     (case IndexFromKey key of
        Inl err \<Rightarrow> Inl err
      | Inr index \<Rightarrow>
          (case index_at index 0 of
             Inl p \<Rightarrow> Inl p
           | Inr t \<Rightarrow>
               if t \<noteq> KeySpatialMap
               then Inl (Errorf ''Expected KeySpatialMap index, got %d byte instead'' [ArgByte t])
               else (let labelOffset = 1 + IndexZYXSize in
                     case slice_go index labelOffset (labelOffset + 8) of
                       Inl p \<Rightarrow> Inl p
                     | Inr label \<Rightarrow>
                         (case slice_go index (labelOffset + 8) (labelOffset + 16) of
                            Inl p \<Rightarrow> Inl p
                          | Inr m \<Rightarrow>
                              (case Uint64 m of
                                 Inl p \<Rightarrow> Inl p
                               | Inr mappedLabel \<Rightarrow> Inr (label, mappedLabel))))))"

definition DecodeLabelSpatialMapKey ::
  "(byte list \<Rightarrow> error + byte list) \<Rightarrow> byte list \<Rightarrow> error + (uint64 \<times> byte list)" where
  "DecodeLabelSpatialMapKey IndexFromKey key =
     (case IndexFromKey key of
        Inl err \<Rightarrow> Inl err
      | Inr index \<Rightarrow>
          (case index_at index 0 of
             Inl p \<Rightarrow> Inl p
           | Inr t \<Rightarrow>
               if t \<noteq> KeyLabelSpatialMap
               then Inl (Errorf ''Expected KeyLabelSpatialMap index, got %d byte instead''
                           [ArgByte t])
               else (case slice_go index 1 9 of
                       Inl p \<Rightarrow> Inl p
                     | Inr l \<Rightarrow>
                         (case Uint64 l of
                            Inl p \<Rightarrow> Inl p
                          | Inr label \<Rightarrow>
                              (case slice_go index 9 (length index) of
                                 Inl p \<Rightarrow> Inl p
                               | Inr blockBytes \<Rightarrow> Inr (label, blockBytes))))))"

definition LabelFromLabelSizesKey ::
  "(byte list \<Rightarrow> error + byte list) \<Rightarrow> byte list \<Rightarrow> error + uint64" where
  "LabelFromLabelSizesKey IndexFromKey key =
     (case IndexFromKey key of
        Inl err \<Rightarrow> Inl err
      | Inr indexBytes \<Rightarrow>
          (case slice_go indexBytes 9 17 of
             Inl p \<Rightarrow> Inl p
           | Inr l \<Rightarrow> Uint64 l))"

section \<open>Local identifiers\<close>

type_synonym LocalID = uint16
type_synonym LocalID32 = uint32
type_synonym InstanceID = uint32
type_synonym RepoID = uint32
type_synonym VersionID = uint32

definition LocalIDSize :: int where "LocalIDSize = 2"
definition LocalID32Size :: int where "LocalID32Size = 4"

text \<open>
  Every \<open>Bytes\<close> method allocates a zeroed buffer of the identifier's size and
  writes the identifier into it, which cannot panic.
\<close>

definition LocalID_Bytes :: "LocalID \<Rightarrow> byte list" where
  "LocalID_Bytes id' = (let buf = make_bytes (nat LocalIDSize) in be16 id' @ drop 2 buf)"

definition LocalID32_Bytes :: "LocalID32 \<Rightarrow> byte list" where
  "LocalID32_Bytes id' = (let buf = make_bytes (nat LocalID32Size) in be32 id' @ drop 4 buf)"

definition InstanceID_Bytes :: "InstanceID \<Rightarrow> byte list" where
  "InstanceID_Bytes id' = (let buf = make_bytes (nat LocalID32Size) in be32 id' @ drop 4 buf)"

definition RepoID_Bytes :: "RepoID \<Rightarrow> byte list" where
  "RepoID_Bytes id' = (let buf = make_bytes (nat LocalID32Size) in be32 id' @ drop 4 buf)"

definition VersionID_Bytes :: "VersionID \<Rightarrow> byte list" where
  "VersionID_Bytes id' = (let buf = make_bytes (nat LocalID32Size) in be32 id' @ drop 4 buf)"

text \<open>
  \<open>LocalIDFromBytes\<close> and \<open>LocalID32FromBytes\<close> return the identifier and
  the number of bytes used. \<open>InstanceIDFromBytes\<close>, \<open>RepoIDFromBytes\<close> and
  \<open>VersionIDFromBytes\<close> have a single result, the identifier.
\<close>

definition LocalIDFromBytes :: "byte list \<Rightarrow> error + (LocalID \<times> int)" where
  "LocalIDFromBytes b = (case Uint16 b of Inl p \<Rightarrow> Inl p | Inr v \<Rightarrow> Inr (v, LocalIDSize))"

definition LocalID32FromBytes :: "byte list \<Rightarrow> error + (LocalID32 \<times> int)" where
  "LocalID32FromBytes b = (case Uint32 b of Inl p \<Rightarrow> Inl p | Inr v \<Rightarrow> Inr (v, LocalID32Size))"

definition InstanceIDFromBytes :: "byte list \<Rightarrow> error + InstanceID" where
  "InstanceIDFromBytes b = Uint32 b"

definition RepoIDFromBytes :: "byte list \<Rightarrow> error + RepoID" where
  "RepoIDFromBytes b = Uint32 b"

definition VersionIDFromBytes :: "byte list \<Rightarrow> error + VersionID" where
  "VersionIDFromBytes b = Uint32 b"

section \<open>UUIDs\<close>

text \<open>
  \<open>fmt.Sprintf("%032x", b)\<close> on a byte slice: two lower-case hexadecimal digits
  for each byte, padded on the left with zeros to 32 characters.
\<close>

definition hexdigit :: "nat \<Rightarrow> char" where
  "hexdigit n = ''0123456789abcdef'' ! n"

definition hexbyte :: "byte \<Rightarrow> string" where
  "hexbyte b = [hexdigit (unat b div 16), hexdigit (unat b mod 16)]"

definition Sprintf_032x :: "byte list \<Rightarrow> string" where
  "Sprintf_032x b =
     (let s = concat (map hexbyte b) in replicate (32 - length s) (CHR ''0'') @ s)"

type_synonym UUID = string

definition NilUUID :: UUID where
  "NilUUID = []"

text \<open>
  \<open>NewUUID\<close> draws from \<open>uuid.NewUUID()\<close> of the go-uuid package; its result, a
  byte slice that may be \<open>nil\<close>, is the parameter \<open>u\<close>.
\<close>

definition NewUUID :: "byte list option \<Rightarrow> UUID" where
  "NewUUID u =
     (case u of
        None \<Rightarrow> []
      | Some b \<Rightarrow> if length b \<noteq> 16 then [] else Sprintf_032x b)"

definition is_hex :: "char \<Rightarrow> bool" where
  "is_hex c = (c \<in> set ''0123456789abcdef'')"

section \<open>Waiting for active cgo routines\<close>

text \<open>
  \<open>BlockOnActiveCgo\<close> takes the \<open>startCgo\<close> lock and polls two values that
  other goroutines change: \<open>cgoNumActive\<close> and \<open>len(cgoActive)\<close>. The model
  starts once the lock is held. \<open>obs w\<close> is what the loop condition reads in the
  iteration entered with \<open>waits = w\<close>, and the value is \<open>waits\<close> at the return:
  the number of \<open>time.Sleep(1 * time.Second)\<close> calls made.
\<close>

function BlockOnActiveCgo_loop :: "(nat \<Rightarrow> int \<times> int) \<Rightarrow> nat \<Rightarrow> nat" where
  "BlockOnActiveCgo_loop obs waits =
     (let cgoNumActive = fst (obs waits); len_cgoActive = snd (obs waits) in
      if (cgoNumActive = 0 \<and> len_cgoActive = 0) \<or> waits \<ge> 5 then waits
      else BlockOnActiveCgo_loop obs (waits + 1))"
  by pat_completeness auto
termination
  by (relation "measure (\<lambda>(obs, waits). 5 - waits)") auto

declare BlockOnActiveCgo_loop.simps [simp del]

definition BlockOnActiveCgo :: "(nat \<Rightarrow> int \<times> int) \<Rightarrow> nat" where
  "BlockOnActiveCgo obs = BlockOnActiveCgo_loop obs 0"

section \<open>Storage engine setup\<close>

text \<open>
  A storage engine is an interface value: \<open>None\<close> is the \<open>nil\<close> interface, and an
  engine is known by the interfaces its dynamic type implements. The type assertion
  \<open>v, ok = e.(I)\<close> gives \<open>(e, true)\<close> when \<open>e\<close> is not \<open>nil\<close> and implements
  \<open>I\<close>, and \<open>(nil, false)\<close> otherwise.
\<close>

datatype iface =
    OrderedKeyValueDB
  | OrderedKeyValueSetter
  | OrderedKeyValueGetter
  | GraphDB
  | GraphSetter
  | GraphGetter

record engine =
  engine_name :: string
  implements :: "iface set"

definition type_assert :: "engine option \<Rightarrow> iface \<Rightarrow> engine option \<times> bool" where
  "type_assert e i =
     (case e of
        None \<Rightarrow> (None, False)
      | Some x \<Rightarrow> if i \<in> implements x then (Some x, True) else (None, False))"

text \<open>\<open>probe e i\<close>: the type assertion of \<open>e\<close> to the interface \<open>i\<close> succeeds.\<close>

definition probe :: "engine option \<Rightarrow> iface \<Rightarrow> bool" where
  "probe e i = snd (type_assert e i)"

text \<open>
  The fields of the global \<open>Engines\<close> that \<open>SetupEngines\<close> assigns; the field
  \<open>Engines.setup\<close> is \<open>setup_flag\<close> here.
\<close>

record engines =
  kvEngine :: "engine option"
  kvDB :: "engine option"
  kvSetter :: "engine option"
  kvGetter :: "engine option"
  graphEngine :: "engine option"
  graphDB :: "engine option"
  graphSetter :: "engine option"
  graphGetter :: "engine option"
  setup_flag :: bool

text \<open>
  \<open>local.NewKeyValueStore\<close> and \<open>NewGraphStore\<close> are defined outside these files
  and are parameters: each returns an engine and an error (\<open>None\<close> is \<open>nil\<close>).
  \<open>SetupEngines\<close> returns its error together with \<open>Engines\<close> afterwards.
\<close>

definition SetupEngines ::
  "(string \<Rightarrow> bool \<Rightarrow> 'cfg \<Rightarrow> engine option \<times> error option) \<Rightarrow>
   (string \<Rightarrow> bool \<Rightarrow> 'cfg \<Rightarrow> engine option \<Rightarrow> engine option \<times> error option) \<Rightarrow>
   string \<Rightarrow> 'cfg \<Rightarrow> engines \<Rightarrow> error option \<times> engines" where
  "SetupEngines NewKeyValueStore NewGraphStore path config Engines =
     (let create = True;
          (e, err) = NewKeyValueStore path create config;
          Engines = Engines\<lparr>kvEngine := e\<rparr>
      in if err \<noteq> None then (err, Engines) else
      let (v, ok) = type_assert (kvEngine Engines) OrderedKeyValueDB;
          Engines = Engines\<lparr>kvDB := v\<rparr>
      in if \<not> ok then
           (Some (Errorf ''Database at %v is not a valid ordered key-value database''
                    [ArgString path]), Engines) else
      let (v, ok) = type_assert (kvEngine Engines) OrderedKeyValueSetter;
          Engines = Engines\<lparr>kvSetter := v\<rparr>
      in if \<not> ok then
           (Some (Errorf ''Database at %v is not a valid ordered key-value setter''
                    [ArgString path]), Engines) else
      let (v, ok) = type_assert (kvEngine Engines) OrderedKeyValueGetter;
          Engines = Engines\<lparr>kvGetter := v\<rparr>
      in if \<not> ok then
           (Some (Errorf ''Database at %v is not a valid ordered key-value getter''
                    [ArgString path]), Engines) else
      let (g, err) = NewGraphStore path create config (kvDB Engines);
          Engines = Engines\<lparr>graphEngine := g\<rparr>
      in if err \<noteq> None then (err, Engines) else
      let (v, ok) = type_assert (graphEngine Engines) GraphDB;
          Engines = Engines\<lparr>graphDB := v\<rparr>
      in if \<not> ok then
           (Some (Errorf ''Database at %v cannot support a graph database''
                    [ArgString path]), Engines) else
      let (v, ok) = type_assert (graphEngine Engines) GraphSetter;
          Engines = Engines\<lparr>graphSetter := v\<rparr>
      in if \<not> ok then
           (Some (Errorf ''Database at %v cannot support a graph setter''
                    [ArgString path]), Engines) else
      let (v, ok) = type_assert (graphEngine Engines) GraphGetter;
          Engines = Engines\<lparr>graphGetter := v\<rparr>
      in if \<not> ok then
           (Some (Errorf ''Database at %v cannot support a graph getter''
                    [ArgString path]), Engines) else
      (None, Engines\<lparr>setup_flag := True\<rparr>))"

section \<open>Handler tokens\<close>

text \<open>
  A buffered channel \<open>make(chan int, n)\<close> is its queue and its capacity. A send
  on a full channel and a receive on an empty one block: the operation is not
  enabled in that state, which is \<open>None\<close>.
\<close>

record 'a chan =
  queue :: "'a list"
  capacity :: nat

definition make_chan :: "nat \<Rightarrow> 'a chan" where
  "make_chan n = \<lparr>queue = [], capacity = n\<rparr>"

definition chan_len :: "'a chan \<Rightarrow> nat" where
  "chan_len c = length (queue c)"

definition chan_send :: "'a chan \<Rightarrow> 'a \<Rightarrow> 'a chan option" where
  "chan_send c v =
     (if length (queue c) < capacity c then Some (c\<lparr>queue := queue c @ [v]\<rparr>) else None)"

definition chan_recv :: "'a chan \<Rightarrow> ('a \<times> 'a chan) option" where
  "chan_recv c =
     (case queue c of [] \<Rightarrow> None | v # vs \<Rightarrow> Some (v, c\<lparr>queue := vs\<rparr>))"

text \<open>The loop \<open>for i := 0; i < n; i++ { c <- 1 }\<close> of \<open>init\<close>.\<close>

primrec send_tokens :: "nat \<Rightarrow> int chan \<Rightarrow> int chan option" where
  "send_tokens 0 c = Some c"
| "send_tokens (Suc n) c =
     (case chan_send c 1 of None \<Rightarrow> None | Some c' \<Rightarrow> send_tokens n c')"

definition MaxThrottledOps :: nat where
  "MaxThrottledOps = 1"

record server =
  HandlerToken :: "int chan"
  Throttle :: "int chan"

text \<open>
  The package variables and \<open>init\<close>, for \<open>MaxChunkHandlers = runtime.NumCPU()\<close>
  given as a parameter. \<open>None\<close> is an \<open>init\<close> that blocks.
\<close>

definition init :: "nat \<Rightarrow> server option" where
  "init MaxChunkHandlers =
     (let s = \<lparr>HandlerToken = make_chan MaxChunkHandlers, Throttle = make_chan MaxThrottledOps\<rparr>
      in case send_tokens MaxThrottledOps (Throttle s) of
           None \<Rightarrow> None
         | Some t \<Rightarrow>
             (case send_tokens MaxChunkHandlers (HandlerToken s) of
                None \<Rightarrow> None
              | Some h \<Rightarrow> Some (s\<lparr>HandlerToken := h, Throttle := t\<rparr>)))"

text \<open>
  Modelled from the spec: taking and returning a handler token, which the callers
  of this package do (the source points to \<open>ProcessChunk\<close> in datatype/voxels) and
  these files do not. A worker acquires a token before it starts and releases it on
  completion, and acquisition blocks when the pool is exhausted: acquiring is a
  receive from \<open>HandlerToken\<close>, releasing is a send of \<open>1\<close>.
\<close>

definition acquire :: "int chan \<Rightarrow> int chan option" where
  "acquire c = (case chan_recv c of None \<Rightarrow> None | Some (v, c') \<Rightarrow> Some c')"

definition release :: "int chan \<Rightarrow> int chan option" where
  "release c = chan_send c 1"

primrec acquire_n :: "nat \<Rightarrow> int chan \<Rightarrow> int chan option" where
  "acquire_n 0 c = Some c"
| "acquire_n (Suc n) c = (case acquire c of None \<Rightarrow> None | Some c' \<Rightarrow> acquire_n n c')"

section \<open>Big-endian encoding and byte order\<close>

lemma be_val_bound: "be_val xs < 256 ^ length xs"
proof (induction xs)
  case Nil show ?case by simp
next
  case (Cons x xs)
  define P :: nat where "P = 256 ^ length xs"
  have "unat x < 256" using unsigned_less [of x, where ?'a = nat] by simp
  then have "unat x + 1 \<le> 256" by simp
  then have le: "(unat x + 1) * P \<le> 256 * P"
    by (rule mult_le_mono1)
  have "be_val (x # xs) = unat x * P + be_val xs" by (simp add: P_def)
  also have "\<dots> < unat x * P + P" using Cons.IH by (simp add: P_def)
  also have "\<dots> = (unat x + 1) * P" by simp
  also note le
  finally show ?case by (simp add: P_def)
qed

lemma be_val_less_iff:
  "length xs = length ys \<Longrightarrow> xs < ys \<longleftrightarrow> be_val xs < be_val ys"
proof (induction xs ys rule: list_induct2)
  case Nil show ?case by simp
next
  case (Cons x xs y ys)
  have bx: "be_val xs < 256 ^ length xs" by (rule be_val_bound)
  have by': "be_val ys < 256 ^ length xs" using be_val_bound [of ys] Cons.hyps by simp
  show ?case
  proof (cases "x = y")
    case True
    with Cons show ?thesis by simp
  next
    case False
    show ?thesis
    proof (cases "x < y")
      case True
      then have "unat x + 1 \<le> unat y" by (simp add: word_less_nat_alt)
      then have "(unat x + 1) * 256 ^ length xs \<le> unat y * 256 ^ length xs"
        by (rule mult_le_mono1)
      with bx have "be_val (x # xs) < be_val (y # ys)" using Cons.hyps by simp
      with True show ?thesis by simp
    next
      case F2: False
      with False have "y < x" by simp
      then have "unat y + 1 \<le> unat x" by (simp add: word_less_nat_alt)
      then have "(unat y + 1) * 256 ^ length xs \<le> unat x * 256 ^ length xs"
        by (rule mult_le_mono1)
      with by' have "be_val (y # ys) < be_val (x # xs)" using Cons.hyps by simp
      with F2 False show ?thesis by simp
    qed
  qed
qed

lemma byte_at: "unat (ucast (drop_bit n (v::uint64)) :: byte) = unat v div 2 ^ n mod 256"
  unfolding unsigned_ucast_eq unat_drop_bit_eq by (simp add: take_bit_eq_mod drop_bit_eq_div)

lemma unat_drop: "unat (drop_bit n (v::uint64)) = unat v div 2 ^ n"
  unfolding unat_drop_bit_eq by (simp add: drop_bit_eq_div)

lemma byte_at0: "unat (ucast (v::uint64) :: byte) = unat v mod 256"
  by (simp add: unsigned_ucast_eq take_bit_eq_mod)

lemma horner8:
  fixes q0 q1 q2 q3 q4 q5 q6 q7 m0 m1 m2 m3 m4 m5 m6 :: nat
  assumes "q0 = m0 + 256 * q1" "q1 = m1 + 256 * q2" "q2 = m2 + 256 * q3" "q3 = m3 + 256 * q4"
    "q4 = m4 + 256 * q5" "q5 = m5 + 256 * q6" "q6 = m6 + 256 * q7"
  shows "q7 * 72057594037927936 + m6 * 281474976710656 + m5 * 1099511627776 + m4 * 4294967296
     + m3 * 16777216 + m2 * 65536 + m1 * 256 + m0 = q0"
  using assms by simp

lemma div_step: "(x::nat) div 2 ^ k = x div 2 ^ k mod 256 + 256 * (x div 2 ^ (k + 8))"
  by (simp add: power_add div_mult2_eq)

lemma be_val_be64: "be_val (be64 v) = unat v"
proof -
  define x where "x = unat v"
  have lt: "x < 2 ^ 64" unfolding x_def using unsigned_less [of v, where ?'a = nat] by simp
  then have top: "x div 2 ^ 56 mod 256 = x div 2 ^ 56"
    by (simp add: less_mult_imp_div_less)
  have "be_val (be64 v) = (x div 2^56 mod 256) * 256^7 + (x div 2^48 mod 256) * 256^6 + (x div 2^40 mod 256) * 256^5
     + (x div 2^32 mod 256) * 256^4 + (x div 2^24 mod 256) * 256^3 + (x div 2^16 mod 256) * 256^2 + (x div 2^8 mod 256) * 256 + x mod 256"
    by (simp add: be64_def byte_at byte_at0 unat_drop x_def)
  also have "\<dots> = (x div 2^56) * 72057594037927936 + (x div 2^48 mod 256) * 281474976710656 + (x div 2^40 mod 256) * 1099511627776
     + (x div 2^32 mod 256) * 4294967296 + (x div 2^24 mod 256) * 16777216 + (x div 2^16 mod 256) * 65536 + (x div 2^8 mod 256) * 256 + x mod 256"
    unfolding top by simp
  also have "\<dots> = x"
    apply (rule horner8)
    using div_step [of x 0] div_step [of x 8] div_step [of x 16] div_step [of x 24]
      div_step [of x 32] div_step [of x 40] div_step [of x 48]
    by simp_all
  finally show ?thesis by (simp add: x_def)
qed

lemma be64_mono: "a < b \<Longrightarrow> be64 a < be64 b"
proof -
  assume "a < b"
  then have "be_val (be64 a) < be_val (be64 b)"
    by (simp add: be_val_be64 word_less_nat_alt)
  moreover have "length (be64 a) = length (be64 b)" by (simp add: be64_def)
  ultimately show ?thesis by (simp add: be_val_less_iff)
qed

lemma NewLabelSurfaceIndex_bytes: "NewLabelSurfaceIndex l = KeyLabelSurface # be64 l"
  by (simp add: NewLabelSurfaceIndex_def make_bytes_def with_slice_def put64_def be64_def numeral_eq_Suc)

lemma NewLabelSizesIndex_bytes: "NewLabelSizesIndex s l = KeyLabelSizes # be64 s @ be64 l"
  by (simp add: NewLabelSizesIndex_def make_bytes_def with_slice_def put64_def be64_def numeral_eq_Suc)


lemma less_append_same_length:
  fixes xs ys :: "byte list"
  assumes "xs < ys" "length xs = length ys"
  shows "xs @ zs < ys @ zs'"
  using assms unfolding list_less_def by (simp add: lexord_sufI)

section \<open>Big-endian round trips\<close>

lemma bit_byte_at:
  fixes v :: "'a::len word"
  shows "bit (push_bit k (ucast (ucast (drop_bit k v) :: byte)) :: 'a word) n
         \<longleftrightarrow> k \<le> n \<and> n < k + 8 \<and> bit v n"
proof (cases "k \<le> n")
  case False
  then show ?thesis by (simp add: bit_simps)
next
  case True
  then obtain m where n: "n = k + m" using le_Suc_ex by blast
  show ?thesis
    unfolding n by (auto simp add: bit_simps dest: bit_imp_le_length)
qed

lemma bit_byte_low:
  fixes v :: "'a::len word"
  shows "bit (ucast (ucast v :: byte) :: 'a word) n \<longleftrightarrow> n < 8 \<and> bit v n"
  by (auto simp add: bit_simps dest: bit_imp_le_length)

lemma or_bytes32:
  fixes v :: "32 word"
  shows "ucast (ucast v :: byte) OR push_bit 8 (ucast (ucast (drop_bit 8 v) :: byte))
        OR push_bit 16 (ucast (ucast (drop_bit 16 v) :: byte))
        OR push_bit 24 (ucast (ucast (drop_bit 24 v) :: byte)) = v"
proof (rule bit_word_eqI)
  fix n :: nat
  assume "n < LENGTH(32)"
  then have "n < 8 \<or> (8 \<le> n \<and> n < 8 + 8) \<or> (16 \<le> n \<and> n < 16 + 8) \<or> (24 \<le> n \<and> n < 24 + 8)"
    by simp linarith
  then show "bit (ucast (ucast v :: byte) OR push_bit 8 (ucast (ucast (drop_bit 8 v) :: byte))
        OR push_bit 16 (ucast (ucast (drop_bit 16 v) :: byte))
        OR push_bit 24 (ucast (ucast (drop_bit 24 v) :: byte)) :: 32 word) n \<longleftrightarrow> bit v n"
    unfolding bit_or_iff bit_byte_at bit_byte_low by blast
qed

lemma or_bytes16:
  fixes v :: "16 word"
  shows "ucast (ucast v :: byte) OR push_bit 8 (ucast (ucast (drop_bit 8 v) :: byte)) = v"
proof (rule bit_word_eqI)
  fix n :: nat
  assume "n < LENGTH(16)"
  then have "n < 8 \<or> (8 \<le> n \<and> n < 8 + 8)"
    by simp linarith
  then show "bit (ucast (ucast v :: byte) OR push_bit 8 (ucast (ucast (drop_bit 8 v) :: byte)) :: 16 word) n
     \<longleftrightarrow> bit v n"
    unfolding bit_or_iff bit_byte_at bit_byte_low by blast
qed

lemma or_bytes64:
  fixes v :: "64 word"
  shows "ucast (ucast v :: byte) OR push_bit 8 (ucast (ucast (drop_bit 8 v) :: byte))
        OR push_bit 16 (ucast (ucast (drop_bit 16 v) :: byte))
        OR push_bit 24 (ucast (ucast (drop_bit 24 v) :: byte))
        OR push_bit 32 (ucast (ucast (drop_bit 32 v) :: byte))
        OR push_bit 40 (ucast (ucast (drop_bit 40 v) :: byte))
        OR push_bit 48 (ucast (ucast (drop_bit 48 v) :: byte))
        OR push_bit 56 (ucast (ucast (drop_bit 56 v) :: byte)) = v"
proof (rule bit_word_eqI)
  fix n :: nat
  assume "n < LENGTH(64)"
  then have "n < 8 \<or> (8 \<le> n \<and> n < 8 + 8) \<or> (16 \<le> n \<and> n < 16 + 8) \<or> (24 \<le> n \<and> n < 24 + 8)
     \<or> (32 \<le> n \<and> n < 32 + 8) \<or> (40 \<le> n \<and> n < 40 + 8) \<or> (48 \<le> n \<and> n < 48 + 8)
     \<or> (56 \<le> n \<and> n < 56 + 8)"
    by simp linarith
  then show "bit (ucast (ucast v :: byte) OR push_bit 8 (ucast (ucast (drop_bit 8 v) :: byte))
        OR push_bit 16 (ucast (ucast (drop_bit 16 v) :: byte))
        OR push_bit 24 (ucast (ucast (drop_bit 24 v) :: byte))
        OR push_bit 32 (ucast (ucast (drop_bit 32 v) :: byte))
        OR push_bit 40 (ucast (ucast (drop_bit 40 v) :: byte))
        OR push_bit 48 (ucast (ucast (drop_bit 48 v) :: byte))
        OR push_bit 56 (ucast (ucast (drop_bit 56 v) :: byte)) :: 64 word) n \<longleftrightarrow> bit v n"
    unfolding bit_or_iff bit_byte_at bit_byte_low by blast
qed

lemma Uint16_be16: "Uint16 (be16 v) = Inr v"
  by (simp add: Uint16_def be16_def or_bytes16)

lemma Uint32_be32: "Uint32 (be32 v) = Inr v"
  by (simp add: Uint32_def be32_def or_bytes32)

lemma Uint64_be64: "Uint64 (be64 v) = Inr v"
  by (simp add: Uint64_def be64_def or_bytes64)

lemma length_be64: "length (be64 v) = 8"
  by (simp add: be64_def)

section \<open>The concrete forward map index\<close>

text \<open>
  C1. \<open>NewForwardMapIndex\<close> on the 8-byte big-endian label 1 and the mapping 2 gives
  the 17 bytes 02, 00 00 00 00 00 00 00 01, 00 00 00 00 00 00 00 02; the key types
  Unknown, VoxelBlock and ForwardMap are 0, 1 and 2.
\<close>

theorem NewForwardMapIndex_concrete:
  "NewForwardMapIndex [0, 0, 0, 0, 0, 0, 0, 1] 2 =
     [2, 0, 0, 0, 0, 0, 0, 0, 1, 0, 0, 0, 0, 0, 0, 0, 2] \<and>
   length (NewForwardMapIndex [0, 0, 0, 0, 0, 0, 0, 1] 2) = 17 \<and>
   KeyUnknown = 0 \<and> KeyVoxelBlock = 1 \<and> KeyForwardMap = 2"
  by code_simp

section \<open>Order of the label and size keys\<close>

text \<open>
  C4. The builders that put a label or a size first are strictly monotone for the
  lexicographic order on byte strings: a smaller label gives a smaller label surface
  index, and for a fixed label a smaller size gives a smaller label sizes index.
\<close>

theorem builders_monotone:
  "(a1 < a2 \<longrightarrow> NewLabelSurfaceIndex a1 < NewLabelSurfaceIndex a2) \<and>
   (s1 < s2 \<longrightarrow> NewLabelSizesIndex s1 label < NewLabelSizesIndex s2 label)"
proof (intro conjI impI)
  assume "a1 < a2"
  then show "NewLabelSurfaceIndex a1 < NewLabelSurfaceIndex a2"
    by (simp add: NewLabelSurfaceIndex_bytes be64_mono)
next
  assume "s1 < s2"
  then have "be64 s1 < be64 s2" by (rule be64_mono)
  moreover have "length (be64 s1) = length (be64 s2)" by (simp add: be64_def)
  ultimately have "be64 s1 @ be64 label < be64 s2 @ be64 label"
    by (rule less_append_same_length)
  then show "NewLabelSizesIndex s1 label < NewLabelSizesIndex s2 label"
    by (simp add: NewLabelSizesIndex_bytes)
qed

theorem builders_monotone_witness:
  "(1::uint64) < 2 \<and> NewLabelSurfaceIndex 1 < NewLabelSurfaceIndex 2 \<and>
   (255::uint64) < 256 \<and> NewLabelSizesIndex 255 7 < NewLabelSizesIndex 256 7"
  using builders_monotone [of 1 2 255 256 7] by simp

section \<open>Spatial map indices: building and updating in place\<close>

lemma with_slice_window:
  "length p = lo \<Longrightarrow> lo + length w = hi \<Longrightarrow> with_slice (p @ w @ r) lo hi f = p @ f w @ r"
  by (auto simp add: with_slice_def)

lemma with_slice_window_end:
  "length p = lo \<Longrightarrow> lo + length w = hi \<Longrightarrow> with_slice (p @ w) lo hi f = p @ f w"
  using with_slice_window [of p lo w hi "[]" f] by simp

lemma make_bytes_spatial:
  "(make_bytes (1 + sz + 8 + 8))[0 := k] = [k] @ replicate sz 0 @ replicate 8 0 @ replicate 8 0"
proof -
  have "make_bytes (1 + sz + 8 + 8) = replicate (Suc ((sz + 8) + 8)) 0"
    by (simp add: make_bytes_def)
  also have "\<dots> = [0] @ replicate sz 0 @ replicate 8 0 @ replicate 8 0"
    unfolding replicate_Suc replicate_add by simp
  finally have "make_bytes (1 + sz + 8 + 8) = [0] @ replicate sz 0 @ replicate 8 0 @ replicate 8 0" .
  then show ?thesis by simp
qed

lemma put64_8: "length d = 8 \<Longrightarrow> put64 d v = be64 v"
  by (simp add: put64_def)

lemma copy_go_full: "length src = length dst \<Longrightarrow> copy_go dst src = src"
  by (simp add: copy_go_def)

lemma NewSpatialMapIndex_bytes:
  "NewSpatialMapIndex c l m =
     [KeySpatialMap] @ c @
     (case l of None \<Rightarrow> replicate 8 0 | Some x \<Rightarrow> copy_go (replicate 8 0) x)
     @ be64 m"
proof -
  let ?k = KeySpatialMap
  let ?z = "replicate 8 (0::byte)"
  define sz where "sz = length c"
  have s1: "with_slice ([?k] @ replicate sz 0 @ ?z @ ?z) 1 (1 + sz) (\<lambda>d. copy_go d c)
            = [?k] @ c @ ?z @ ?z"
    using with_slice_window [of "[?k]" 1 "replicate sz 0" "1 + sz" "?z @ ?z" "\<lambda>d. copy_go d c"]
    by (simp add: copy_go_full sz_def)
  have s2: "with_slice (([?k] @ c) @ ?z @ ?z) (1 + sz) (1 + sz + 8) f = ([?k] @ c) @ f ?z @ ?z" for f
    by (rule with_slice_window) (simp_all add: sz_def)
  have s3: "with_slice ((([?k] @ c) @ w) @ ?z) (1 + sz + 8) (1 + sz + 16) f = (([?k] @ c) @ w) @ f ?z"
    if "length w = 8" for w f
    by (rule with_slice_window_end) (simp_all add: sz_def that)
  show ?thesis
  proof (cases l)
    case None
    have "NewSpatialMapIndex c l m
          = with_slice ((([?k] @ c) @ ?z) @ ?z) (1 + sz + 8) (1 + sz + 16) (\<lambda>d. put64 d m)"
      unfolding NewSpatialMapIndex_def Let_def None sz_def [symmetric] make_bytes_spatial s1
      by simp
    also have "\<dots> = (([?k] @ c) @ ?z) @ put64 ?z m" by (rule s3) simp
    finally show ?thesis by (simp add: None put64_8)
  next
    case (Some x)
    have "NewSpatialMapIndex c l m
          = with_slice (with_slice (([?k] @ c) @ ?z @ ?z) (1 + sz) (1 + sz + 8) (\<lambda>d. copy_go d x))
               (1 + sz + 8) (1 + sz + 16) (\<lambda>d. put64 d m)"
      unfolding NewSpatialMapIndex_def Let_def Some sz_def [symmetric] make_bytes_spatial s1
      by simp
    also have "\<dots> = with_slice ((([?k] @ c) @ copy_go ?z x) @ ?z) (1 + sz + 8) (1 + sz + 16) (\<lambda>d. put64 d m)"
      unfolding s2 by simp
    also have "\<dots> = (([?k] @ c) @ copy_go ?z x) @ put64 ?z m"
      by (rule s3) (simp add: copy_go_def)
    finally show ?thesis by (simp add: Some put64_8)
  qed
qed

lemma take_prefix: "n = length xs \<Longrightarrow> take n (xs @ ys) = xs"
  by simp

lemma update_slice_window:
  "int (length p) = lo \<Longrightarrow> lo + int (length w) = hi \<Longrightarrow>
   update_slice (p @ w @ r) lo hi f = (case f w of Inl e \<Rightarrow> Inl e | Inr d \<Rightarrow> Inr (p @ d @ r))"
  by (auto simp add: update_slice_def split: sum.splits)

lemma UpdateSpatialMapIndex_bytes:
  assumes "length a = 8" "length b = 8"
  shows "UpdateSpatialMapIndex (p @ a @ b) l m =
         Inr (p @ (case l of None \<Rightarrow> a | Some x \<Rightarrow> copy_go a x) @ be64 m)"
proof -
  have i: "1 + (int (length (p @ a @ b)) - 17) = int (length p)"
    using assms by simp
  have last: "update_slice ((p @ w) @ b @ []) (int (length p) + 8) (int (length p) + 16)
                (\<lambda>d. PutUint64 d m) = Inr ((p @ w) @ be64 m @ [])"
    if "length w = 8" for w
    using update_slice_window [of "p @ w" "int (length p) + 8" b "int (length p) + 16" "[]"
        "\<lambda>d. PutUint64 d m"] that assms
    by (simp add: PutUint64_def put64_8)
  show ?thesis
  proof (cases l)
    case None
    show ?thesis
      unfolding UpdateSpatialMapIndex_def Let_def i None
      using last [of a] assms by simp
  next
    case (Some x)
    have first: "update_slice (p @ a @ b) (int (length p)) (int (length p) + 8)
                   (\<lambda>d. Inr (copy_go d x)) = Inr (p @ copy_go a x @ b)"
      using update_slice_window [of p "int (length p)" a "int (length p) + 8" b
          "\<lambda>d. Inr (copy_go d x)"] assms
      by simp
    have len: "length (copy_go a x) = 8" using assms by (simp add: copy_go_def)
    show ?thesis
      unfolding UpdateSpatialMapIndex_def Let_def i Some
      using first last [of "copy_go a x"] len by simp
  qed
qed

text \<open>
  C3. For every block index and all 8-byte labels \<open>labelA\<close>, \<open>labelB\<close> that are not
  \<open>nil\<close>, and all mapping values: updating \<open>NewSpatialMapIndex coord labelA mapA\<close>
  in place with \<open>labelB\<close> and \<open>mapB\<close> succeeds and leaves exactly the bytes of
  \<open>NewSpatialMapIndex coord labelB mapB\<close>.
\<close>

theorem update_equals_fresh:
  assumes "length labelA = 8" and "length labelB = 8"
  shows "UpdateSpatialMapIndex (NewSpatialMapIndex coord (Some labelA) mapA) (Some labelB) mapB
         = Inr (NewSpatialMapIndex coord (Some labelB) mapB)"
proof -
  have "NewSpatialMapIndex coord (Some labelA) mapA = ([KeySpatialMap] @ coord) @ labelA @ be64 mapA"
    using assms by (simp add: NewSpatialMapIndex_bytes copy_go_def)
  moreover have "NewSpatialMapIndex coord (Some labelB) mapB = ([KeySpatialMap] @ coord) @ labelB @ be64 mapB"
    using assms by (simp add: NewSpatialMapIndex_bytes copy_go_def)
  moreover have "UpdateSpatialMapIndex (([KeySpatialMap] @ coord) @ labelA @ be64 mapA) (Some labelB) mapB
        = Inr (([KeySpatialMap] @ coord) @ copy_go labelA labelB @ be64 mapB)"
    using UpdateSpatialMapIndex_bytes [of labelA "be64 mapA" "[KeySpatialMap] @ coord" "Some labelB" mapB]
      assms by (simp add: length_be64)
  moreover have "copy_go labelA labelB = labelB" using assms by (simp add: copy_go_def)
  ultimately show ?thesis by simp
qed

theorem update_equals_fresh_witness:
  "length [1, 2, 3, 4, 5, 6, 7, 8 :: byte] = 8 \<and> length [9, 9, 9, 9, 9, 9, 9, 9 :: byte] = 8 \<and>
   UpdateSpatialMapIndex (NewSpatialMapIndex [0, 0, 0, 1, 0, 0, 0, 2, 0, 0, 0, 3]
       (Some [1, 2, 3, 4, 5, 6, 7, 8]) 5) (Some [9, 9, 9, 9, 9, 9, 9, 9]) 6
     = Inr (NewSpatialMapIndex [0, 0, 0, 1, 0, 0, 0, 2, 0, 0, 0, 3] (Some [9, 9, 9, 9, 9, 9, 9, 9]) 6) \<and>
   NewSpatialMapIndex [0, 0, 0, 1, 0, 0, 0, 2, 0, 0, 0, 3] (Some [9, 9, 9, 9, 9, 9, 9, 9]) 6
     = [4, 0, 0, 0, 1, 0, 0, 0, 2, 0, 0, 0, 3, 9, 9, 9, 9, 9, 9, 9, 9, 0, 0, 0, 0, 0, 0, 0, 6]"
proof -
  have "NewSpatialMapIndex [0, 0, 0, 1, 0, 0, 0, 2, 0, 0, 0, 3] (Some [9, 9, 9, 9, 9, 9, 9, 9]) 6
     = [4, 0, 0, 0, 1, 0, 0, 0, 2, 0, 0, 0, 3, 9, 9, 9, 9, 9, 9, 9, 9, 0, 0, 0, 0, 0, 0, 0, 6]"
    by code_simp
  then show ?thesis
    using update_equals_fresh [of "[1, 2, 3, 4, 5, 6, 7, 8]" "[9, 9, 9, 9, 9, 9, 9, 9]"
        "[0, 0, 0, 1, 0, 0, 0, 2, 0, 0, 0, 3]" 5 6]
    by simp
qed

text \<open>
  C9. On an index built by \<open>NewSpatialMapIndex\<close>, \<open>UpdateSpatialMapIndex\<close> succeeds
  and keeps the key type byte and the bytes of the block index, changing at most the
  16 bytes behind them. With a \<open>nil\<close> label it keeps the 8 label bytes as well and
  rewrites only the last 8 bytes, the mapping. \<open>NewSpatialMapIndex\<close> with a \<open>nil\<close>
  label leaves the label field zero.
\<close>

theorem update_frame:
  "(\<exists>rest. UpdateSpatialMapIndex (NewSpatialMapIndex coord label m) label' m'
             = Inr ((KeySpatialMap # coord) @ rest) \<and> length rest = 16) \<and>
   take (1 + length coord) (NewSpatialMapIndex coord label m) = KeySpatialMap # coord \<and>
   length (NewSpatialMapIndex coord label m) = 1 + length coord + 16 \<and>
   UpdateSpatialMapIndex (NewSpatialMapIndex coord label m) None m'
     = Inr (take (1 + length coord + 8) (NewSpatialMapIndex coord label m) @ be64 m') \<and>
   NewSpatialMapIndex coord None m = KeySpatialMap # coord @ replicate 8 0 @ be64 m"
proof -
  define a where "a = (case label of None \<Rightarrow> replicate 8 (0::byte) | Some x \<Rightarrow> copy_go (replicate 8 0) x)"
  have la: "length a = 8" by (simp add: a_def copy_go_def min_def split: option.splits)
  have new: "NewSpatialMapIndex coord label m = (KeySpatialMap # coord) @ a @ be64 m"
    by (simp add: NewSpatialMapIndex_bytes a_def)
  have upd: "UpdateSpatialMapIndex ((KeySpatialMap # coord) @ a @ be64 m) l m' =
         Inr ((KeySpatialMap # coord) @ (case l of None \<Rightarrow> a | Some x \<Rightarrow> copy_go a x) @ be64 m')" for l
    by (rule UpdateSpatialMapIndex_bytes) (simp_all add: la length_be64)
  have c1: "\<exists>rest. UpdateSpatialMapIndex (NewSpatialMapIndex coord label m) label' m'
             = Inr ((KeySpatialMap # coord) @ rest) \<and> length rest = 16"
    unfolding new upd using la by (auto simp add: length_be64 copy_go_def split: option.splits)
  have c2: "take (1 + length coord) (NewSpatialMapIndex coord label m) = KeySpatialMap # coord"
    unfolding new by simp
  have c3: "length (NewSpatialMapIndex coord label m) = 1 + length coord + 16"
    unfolding new using la by (simp add: length_be64)
  have c4: "UpdateSpatialMapIndex (NewSpatialMapIndex coord label m) None m'
     = Inr (take (1 + length coord + 8) (NewSpatialMapIndex coord label m) @ be64 m')"
    unfolding new upd
    using take_prefix [of "1 + length coord + 8" "(KeySpatialMap # coord) @ a" "be64 m"] la
    by simp
  have c5: "NewSpatialMapIndex coord None m = KeySpatialMap # coord @ replicate 8 0 @ be64 m"
    by (simp add: NewSpatialMapIndex_bytes)
  from c1 c2 c3 c4 c5 show ?thesis by blast
qed

section \<open>The bounded wait for cgo routines\<close>

lemma BlockOnActiveCgo_loop_stop:
  "5 \<le> waits \<or> obs waits = (0, 0) \<Longrightarrow> BlockOnActiveCgo_loop obs waits = waits"
  by (subst BlockOnActiveCgo_loop.simps) auto

lemma BlockOnActiveCgo_loop_step:
  "waits < 5 \<Longrightarrow> obs waits \<noteq> (0, 0) \<Longrightarrow>
   BlockOnActiveCgo_loop obs waits = BlockOnActiveCgo_loop obs (waits + 1)"
  by (subst BlockOnActiveCgo_loop.simps) (auto simp add: prod_eq_iff)

lemma BlockOnActiveCgo_loop_bound:
  "waits \<le> 5 \<Longrightarrow> BlockOnActiveCgo_loop obs waits \<le> 5"
proof (induction obs waits rule: BlockOnActiveCgo_loop.induct)
  case (1 obs waits)
  show ?case
  proof (cases "5 \<le> waits \<or> obs waits = (0, 0)")
    case True
    then show ?thesis using "1.prems" by (simp add: BlockOnActiveCgo_loop_stop)
  next
    case False
    then have "BlockOnActiveCgo_loop obs waits = BlockOnActiveCgo_loop obs (waits + 1)"
      by (simp add: BlockOnActiveCgo_loop_step)
    moreover have "BlockOnActiveCgo_loop obs (waits + 1) \<le> 5"
      using False "1.IH" by (auto simp add: prod_eq_iff)
    ultimately show ?thesis by simp
  qed
qed

lemma BlockOnActiveCgo_loop_busy:
  "waits \<le> 5 \<Longrightarrow> \<forall>w<5. obs w \<noteq> (0, 0) \<Longrightarrow> BlockOnActiveCgo_loop obs waits = 5"
proof (induction obs waits rule: BlockOnActiveCgo_loop.induct)
  case (1 obs waits)
  show ?case
  proof (cases "waits = 5")
    case True
    then show ?thesis by (simp add: BlockOnActiveCgo_loop_stop)
  next
    case False
    with "1.prems" have lt: "waits < 5" and busy: "obs waits \<noteq> (0, 0)" by auto
    then have "BlockOnActiveCgo_loop obs waits = BlockOnActiveCgo_loop obs (waits + 1)"
      by (simp add: BlockOnActiveCgo_loop_step)
    moreover have "BlockOnActiveCgo_loop obs (waits + 1) = 5"
      using lt busy "1.IH" "1.prems" by (auto simp add: prod_eq_iff)
    ultimately show ?thesis by simp
  qed
qed

text \<open>
  C7. \<open>BlockOnActiveCgo\<close> always returns, after at most 5 sleeps of one second.
  When the number of active cgo routines and the number of queued messages are never
  both zero, it returns after exactly 5 sleeps; when both are zero at the first look,
  it returns at once, without sleeping.
\<close>

theorem BlockOnActiveCgo_bounded:
  "BlockOnActiveCgo obs \<le> 5 \<and>
   ((\<forall>w<5. obs w \<noteq> (0, 0)) \<longrightarrow> BlockOnActiveCgo obs = 5) \<and>
   (obs 0 = (0, 0) \<longrightarrow> BlockOnActiveCgo obs = 0)"
proof (intro conjI impI)
  show "BlockOnActiveCgo obs \<le> 5"
    by (simp add: BlockOnActiveCgo_def BlockOnActiveCgo_loop_bound)
next
  assume busy: "\<forall>w<5. obs w \<noteq> (0, 0)"
  then show "BlockOnActiveCgo obs = 5"
    by (simp add: BlockOnActiveCgo_def BlockOnActiveCgo_loop_busy)
next
  assume "obs 0 = (0, 0)"
  then show "BlockOnActiveCgo obs = 0"
    by (simp add: BlockOnActiveCgo_def BlockOnActiveCgo_loop_stop)
qed

theorem BlockOnActiveCgo_bounded_witness:
  "BlockOnActiveCgo (\<lambda>w. (1, 0)) = 5 \<and> BlockOnActiveCgo (\<lambda>w. (0, 3)) = 5 \<and>
   BlockOnActiveCgo (\<lambda>w. (0, 0)) = 0"
  using BlockOnActiveCgo_bounded [of "\<lambda>w. (1, 0)"] BlockOnActiveCgo_bounded [of "\<lambda>w. (0, 3)"]
    BlockOnActiveCgo_bounded [of "\<lambda>w. (0, 0)"]
  by simp

section \<open>The results of NewUUID\<close>

lemma length_hex: "length (concat (map hexbyte b)) = 2 * length b"
  by (induction b) (simp_all add: hexbyte_def)

lemma is_hex_hexdigit: "n < 16 \<Longrightarrow> is_hex (hexdigit n)"
  unfolding is_hex_def hexdigit_def by (rule nth_mem) simp

lemma is_hex_hexbyte: "c \<in> set (hexbyte b) \<Longrightarrow> is_hex c"
proof -
  have "unat b < 256" using unsigned_less [of b, where ?'a = nat] by simp
  then have "unat b div 16 < 16" by simp
  moreover have "unat b mod 16 < 16" by simp
  ultimately show "c \<in> set (hexbyte b) \<Longrightarrow> is_hex c"
    by (auto simp add: hexbyte_def is_hex_hexdigit)
qed

lemma Sprintf_032x_16:
  "length b = 16 \<Longrightarrow> Sprintf_032x b = concat (map hexbyte b)"
  by (simp add: Sprintf_032x_def Let_def length_hex)

text \<open>
  C6. \<open>NewUUID\<close> returns the nil UUID, the empty string, exactly when the random
  generation gives \<open>nil\<close> or a value that is not 16 bytes long. Otherwise it returns
  the value written as 32 hexadecimal digits. There is no other result.
\<close>

theorem NewUUID_results:
  "(NewUUID u = NilUUID \<longleftrightarrow> u = None \<or> (\<exists>b. u = Some b \<and> length b \<noteq> 16)) \<and>
   (NewUUID u = NilUUID \<or>
    (\<exists>b. u = Some b \<and> length b = 16 \<and> NewUUID u = concat (map hexbyte b) \<and>
         length (NewUUID u) = 32 \<and> (\<forall>c\<in>set (NewUUID u). is_hex c)))"
proof (cases u)
  case None
  then show ?thesis by (simp add: NewUUID_def NilUUID_def)
next
  case (Some b)
  show ?thesis
  proof (cases "length b = 16")
    case False
    with Some show ?thesis by (simp add: NewUUID_def NilUUID_def)
  next
    case True
    then have eq: "NewUUID u = concat (map hexbyte b)"
      using Some by (simp add: NewUUID_def Sprintf_032x_16)
    have len: "length (NewUUID u) = 32" using True by (simp add: eq length_hex)
    have hex: "\<forall>c\<in>set (NewUUID u). is_hex c"
      unfolding eq by (auto simp add: is_hex_hexbyte)
    from len have "NewUUID u \<noteq> NilUUID" by (auto simp add: NilUUID_def)
    with Some True eq len hex show ?thesis by simp
  qed
qed

theorem NewUUID_results_witness:
  "NewUUID (Some [0, 1, 2, 3, 4, 5, 6, 7, 8, 9, 10, 11, 12, 13, 14, 255])
     = ''000102030405060708090a0b0c0d0eff'' \<and>
   length (NewUUID (Some [0, 1, 2, 3, 4, 5, 6, 7, 8, 9, 10, 11, 12, 13, 14, 255])) = 32 \<and>
   NewUUID None = NilUUID \<and> NewUUID (Some [1, 2, 3]) = NilUUID"
proof -
  have v: "NewUUID (Some [0, 1, 2, 3, 4, 5, 6, 7, 8, 9, 10, 11, 12, 13, 14, 255])
     = ''000102030405060708090a0b0c0d0eff''"
    by code_simp
  have n: "NewUUID (Some [0, 1, 2, 3, 4, 5, 6, 7, 8, 9, 10, 11, 12, 13, 14, 255]) \<noteq> NilUUID"
    unfolding v by (simp add: NilUUID_def)
  show ?thesis
    using NewUUID_results [of "Some [0, 1, 2, 3, 4, 5, 6, 7, 8, 9, 10, 11, 12, 13, 14, 255]"]
      NewUUID_results [of None] NewUUID_results [of "Some [1, 2, 3]"] v n
    by auto
qed

section \<open>Capability checks of SetupEngines\<close>

lemma type_assert_probe: "type_assert e i = (if probe e i then e else None, probe e i)"
  by (cases e) (simp_all add: type_assert_def probe_def)

lemma SetupEngines_unfold:
  assumes kv: "NewKeyValueStore path True config = (e, kverr)"
    and gr: "NewGraphStore path True config e = (g, gerr)"
  shows "SetupEngines NewKeyValueStore NewGraphStore path config Engines =
    (if kverr \<noteq> None then (kverr, Engines\<lparr>kvEngine := e\<rparr>)
     else if \<not> probe e OrderedKeyValueDB then
       (Some (Errorf ''Database at %v is not a valid ordered key-value database'' [ArgString path]),
        Engines\<lparr>kvEngine := e, kvDB := None\<rparr>)
     else if \<not> probe e OrderedKeyValueSetter then
       (Some (Errorf ''Database at %v is not a valid ordered key-value setter'' [ArgString path]),
        Engines\<lparr>kvEngine := e, kvDB := e, kvSetter := None\<rparr>)
     else if \<not> probe e OrderedKeyValueGetter then
       (Some (Errorf ''Database at %v is not a valid ordered key-value getter'' [ArgString path]),
        Engines\<lparr>kvEngine := e, kvDB := e, kvSetter := e, kvGetter := None\<rparr>)
     else if gerr \<noteq> None then
       (gerr, Engines\<lparr>kvEngine := e, kvDB := e, kvSetter := e, kvGetter := e, graphEngine := g\<rparr>)
     else if \<not> probe g GraphDB then
       (Some (Errorf ''Database at %v cannot support a graph database'' [ArgString path]),
        Engines\<lparr>kvEngine := e, kvDB := e, kvSetter := e, kvGetter := e, graphEngine := g,
          graphDB := None\<rparr>)
     else if \<not> probe g GraphSetter then
       (Some (Errorf ''Database at %v cannot support a graph setter'' [ArgString path]),
        Engines\<lparr>kvEngine := e, kvDB := e, kvSetter := e, kvGetter := e, graphEngine := g,
          graphDB := g, graphSetter := None\<rparr>)
     else if \<not> probe g GraphGetter then
       (Some (Errorf ''Database at %v cannot support a graph getter'' [ArgString path]),
        Engines\<lparr>kvEngine := e, kvDB := e, kvSetter := e, kvGetter := e, graphEngine := g,
          graphDB := g, graphSetter := g, graphGetter := None\<rparr>)
     else (None, Engines\<lparr>kvEngine := e, kvDB := e, kvSetter := e, kvGetter := e, graphEngine := g,
          graphDB := g, graphSetter := g, graphGetter := g, setup_flag := True\<rparr>))"
  unfolding SetupEngines_def Let_def kv type_assert_probe
  by (simp add: gr)

text \<open>
  C8. Let \<open>e\<close> be the key-value engine and \<open>g\<close> the graph engine that the two
  constructors return. When the key-value engine is probed and lacks the ordered
  key-value database, setter or getter capability, or the graph engine is probed and
  lacks the graph database, setter or getter capability, \<open>SetupEngines\<close> returns the
  error that names the first missing capability. It returns no error exactly when both
  constructors succeed and all six checks do; only then is \<open>Engines.setup\<close> set to
  true, and on every error it is left as it was.
\<close>

theorem SetupEngines_capabilities:
  assumes kv: "NewKeyValueStore path True config = (e, kverr)"
    and gr: "NewGraphStore path True config e = (g, gerr)"
  shows "let R = SetupEngines NewKeyValueStore NewGraphStore path config Engines;
             kv_ok = (probe e OrderedKeyValueDB \<and> probe e OrderedKeyValueSetter \<and>
                      probe e OrderedKeyValueGetter);
             graph_ok = (probe g GraphDB \<and> probe g GraphSetter \<and> probe g GraphGetter)
         in (kverr = None \<and> \<not> probe e OrderedKeyValueDB \<longrightarrow>
               fst R = Some (Errorf ''Database at %v is not a valid ordered key-value database''
                               [ArgString path])) \<and>
            (kverr = None \<and> probe e OrderedKeyValueDB \<and> \<not> probe e OrderedKeyValueSetter \<longrightarrow>
               fst R = Some (Errorf ''Database at %v is not a valid ordered key-value setter''
                               [ArgString path])) \<and>
            (kverr = None \<and> probe e OrderedKeyValueDB \<and> probe e OrderedKeyValueSetter \<and>
             \<not> probe e OrderedKeyValueGetter \<longrightarrow>
               fst R = Some (Errorf ''Database at %v is not a valid ordered key-value getter''
                               [ArgString path])) \<and>
            (kverr = None \<and> kv_ok \<and> gerr = None \<and> \<not> probe g GraphDB \<longrightarrow>
               fst R = Some (Errorf ''Database at %v cannot support a graph database''
                               [ArgString path])) \<and>
            (kverr = None \<and> kv_ok \<and> gerr = None \<and> probe g GraphDB \<and> \<not> probe g GraphSetter \<longrightarrow>
               fst R = Some (Errorf ''Database at %v cannot support a graph setter''
                               [ArgString path])) \<and>
            (kverr = None \<and> kv_ok \<and> gerr = None \<and> probe g GraphDB \<and> probe g GraphSetter \<and>
             \<not> probe g GraphGetter \<longrightarrow>
               fst R = Some (Errorf ''Database at %v cannot support a graph getter''
                               [ArgString path])) \<and>
            (fst R = None \<longleftrightarrow> kverr = None \<and> kv_ok \<and> gerr = None \<and> graph_ok) \<and>
            (fst R = None \<longrightarrow> setup_flag (snd R)) \<and>
            (fst R \<noteq> None \<longrightarrow> setup_flag (snd R) = setup_flag Engines)"
proof -
  have "SetupEngines NewKeyValueStore NewGraphStore path config Engines =
    (if kverr \<noteq> None then (kverr, Engines\<lparr>kvEngine := e\<rparr>)
     else if \<not> probe e OrderedKeyValueDB then
       (Some (Errorf ''Database at %v is not a valid ordered key-value database'' [ArgString path]),
        Engines\<lparr>kvEngine := e, kvDB := None\<rparr>)
     else if \<not> probe e OrderedKeyValueSetter then
       (Some (Errorf ''Database at %v is not a valid ordered key-value setter'' [ArgString path]),
        Engines\<lparr>kvEngine := e, kvDB := e, kvSetter := None\<rparr>)
     else if \<not> probe e OrderedKeyValueGetter then
       (Some (Errorf ''Database at %v is not a valid ordered key-value getter'' [ArgString path]),
        Engines\<lparr>kvEngine := e, kvDB := e, kvSetter := e, kvGetter := None\<rparr>)
     else if gerr \<noteq> None then
       (gerr, Engines\<lparr>kvEngine := e, kvDB := e, kvSetter := e, kvGetter := e, graphEngine := g\<rparr>)
     else if \<not> probe g GraphDB then
       (Some (Errorf ''Database at %v cannot support a graph database'' [ArgString path]),
        Engines\<lparr>kvEngine := e, kvDB := e, kvSetter := e, kvGetter := e, graphEngine := g,
          graphDB := None\<rparr>)
     else if \<not> probe g GraphSetter then
       (Some (Errorf ''Database at %v cannot support a graph setter'' [ArgString path]),
        Engines\<lparr>kvEngine := e, kvDB := e, kvSetter := e, kvGetter := e, graphEngine := g,
          graphDB := g, graphSetter := None\<rparr>)
     else if \<not> probe g GraphGetter then
       (Some (Errorf ''Database at %v cannot support a graph getter'' [ArgString path]),
        Engines\<lparr>kvEngine := e, kvDB := e, kvSetter := e, kvGetter := e, graphEngine := g,
          graphDB := g, graphSetter := g, graphGetter := None\<rparr>)
     else (None, Engines\<lparr>kvEngine := e, kvDB := e, kvSetter := e, kvGetter := e, graphEngine := g,
          graphDB := g, graphSetter := g, graphGetter := g, setup_flag := True\<rparr>))"
    using kv gr by (rule SetupEngines_unfold)
  then show ?thesis
    unfolding Let_def by auto
qed

theorem SetupEngines_capabilities_witness:
  "fst (SetupEngines
     (\<lambda>p c cfg. (Some \<lparr>engine_name = ''leveldb'',
          implements = {OrderedKeyValueDB, OrderedKeyValueSetter, OrderedKeyValueGetter}\<rparr>, None))
     (\<lambda>p c cfg db. (Some \<lparr>engine_name = ''graph'',
          implements = {GraphDB, GraphSetter, GraphGetter}\<rparr>, None))
     ''/data'' ()
     \<lparr>kvEngine = None, kvDB = None, kvSetter = None, kvGetter = None, graphEngine = None,
      graphDB = None, graphSetter = None, graphGetter = None, setup_flag = False\<rparr>) = None \<and>
   setup_flag (snd (SetupEngines
     (\<lambda>p c cfg. (Some \<lparr>engine_name = ''leveldb'',
          implements = {OrderedKeyValueDB, OrderedKeyValueSetter, OrderedKeyValueGetter}\<rparr>, None))
     (\<lambda>p c cfg db. (Some \<lparr>engine_name = ''graph'',
          implements = {GraphDB, GraphSetter, GraphGetter}\<rparr>, None))
     ''/data'' ()
     \<lparr>kvEngine = None, kvDB = None, kvSetter = None, kvGetter = None, graphEngine = None,
      graphDB = None, graphSetter = None, graphGetter = None, setup_flag = False\<rparr>)) \<and>
   fst (SetupEngines
     (\<lambda>p c cfg. (Some \<lparr>engine_name = ''readonly'',
          implements = {OrderedKeyValueDB, OrderedKeyValueGetter}\<rparr>, None))
     (\<lambda>p c cfg db. (Some \<lparr>engine_name = ''graph'',
          implements = {GraphDB, GraphSetter, GraphGetter}\<rparr>, None))
     ''/data'' ()
     \<lparr>kvEngine = None, kvDB = None, kvSetter = None, kvGetter = None, graphEngine = None,
      graphDB = None, graphSetter = None, graphGetter = None, setup_flag = False\<rparr>)
     = Some (Errorf ''Database at %v is not a valid ordered key-value setter'' [ArgString ''/data'']) \<and>
   \<not> setup_flag (snd (SetupEngines
     (\<lambda>p c cfg. (Some \<lparr>engine_name = ''readonly'',
          implements = {OrderedKeyValueDB, OrderedKeyValueGetter}\<rparr>, None))
     (\<lambda>p c cfg db. (Some \<lparr>engine_name = ''graph'',
          implements = {GraphDB, GraphSetter, GraphGetter}\<rparr>, None))
     ''/data'' ()
     \<lparr>kvEngine = None, kvDB = None, kvSetter = None, kvGetter = None, graphEngine = None,
      graphDB = None, graphSetter = None, graphGetter = None, setup_flag = False\<rparr>))"
proof -
  let ?kv = "Some \<lparr>engine_name = ''leveldb'',
          implements = {OrderedKeyValueDB, OrderedKeyValueSetter, OrderedKeyValueGetter}\<rparr>"
  let ?ro = "Some \<lparr>engine_name = ''readonly'',
          implements = {OrderedKeyValueDB, OrderedKeyValueGetter}\<rparr>"
  let ?gr = "Some \<lparr>engine_name = ''graph'', implements = {GraphDB, GraphSetter, GraphGetter}\<rparr>"
  let ?E = "\<lparr>kvEngine = None, kvDB = None, kvSetter = None, kvGetter = None, graphEngine = None,
      graphDB = None, graphSetter = None, graphGetter = None, setup_flag = False\<rparr>"
  show ?thesis
    using SetupEngines_capabilities [where NewKeyValueStore = "\<lambda>p c cfg. (?kv, None)"
        and NewGraphStore = "\<lambda>p c cfg db. (?gr, None)" and path = "''/data''" and config = "()"
        and e = ?kv and kverr = None and g = ?gr and gerr = None and Engines = ?E]
      SetupEngines_capabilities [where NewKeyValueStore = "\<lambda>p c cfg. (?ro, None)"
        and NewGraphStore = "\<lambda>p c cfg db. (?gr, None)" and path = "''/data''" and config = "()"
        and e = ?ro and kverr = None and g = ?gr and gerr = None and Engines = ?E]
    by (simp add: Let_def probe_def type_assert_def)
qed

section \<open>Back pressure of the handler tokens\<close>

lemma send_tokens_fits:
  "length (queue c) + k \<le> capacity c \<Longrightarrow>
   send_tokens k c = Some (c\<lparr>queue := queue c @ replicate k 1\<rparr>)"
proof (induction k arbitrary: c)
  case 0
  show ?case by simp
next
  case (Suc k)
  have "send_tokens k (c\<lparr>queue := queue c @ [1]\<rparr>)
        = Some (c\<lparr>queue := queue c @ [1]\<rparr>\<lparr>queue := queue (c\<lparr>queue := queue c @ [1]\<rparr>) @ replicate k 1\<rparr>)"
    using Suc.prems by (intro Suc.IH) simp
  then show ?case using Suc.prems by (simp add: chan_send_def)
qed

lemma acquire_n_available:
  "k \<le> length (queue c) \<Longrightarrow> acquire_n k c = Some (c\<lparr>queue := drop k (queue c)\<rparr>)"
proof (induction k arbitrary: c)
  case 0
  show ?case by simp
next
  case (Suc k)
  then obtain v vs where q: "queue c = v # vs" by (cases "queue c") auto
  have "acquire_n k (c\<lparr>queue := vs\<rparr>) = Some (c\<lparr>queue := vs\<rparr>\<lparr>queue := drop k (queue (c\<lparr>queue := vs\<rparr>))\<rparr>)"
    using Suc.prems q by (intro Suc.IH) simp
  then show ?case by (simp add: acquire_def chan_recv_def q)
qed

lemma init_tokens:
  "init N = Some \<lparr>HandlerToken = \<lparr>queue = replicate N 1, capacity = N\<rparr>,
                   Throttle = \<lparr>queue = [1], capacity = 1\<rparr>\<rparr>"
proof -
  have t: "send_tokens MaxThrottledOps (make_chan MaxThrottledOps) = Some \<lparr>queue = [1], capacity = 1\<rparr>"
    using send_tokens_fits [of "make_chan MaxThrottledOps" MaxThrottledOps]
    by (simp add: make_chan_def MaxThrottledOps_def)
  have h: "send_tokens N (make_chan N) = Some \<lparr>queue = replicate N 1, capacity = N\<rparr>"
    using send_tokens_fits [of "make_chan N" N] by (simp add: make_chan_def)
  show ?thesis by (simp add: init_def Let_def t h)
qed

text \<open>
  C10. After \<open>init\<close> with \<open>MaxChunkHandlers = N\<close> the pool holds \<open>N\<close> tokens:
  \<open>N\<close> acquisitions in a row all succeed, the next one blocks, and once a token is
  released it succeeds.
\<close>

theorem handler_tokens_backpressure:
  "\<exists>s c. init N = Some s \<and>
     (\<forall>k\<le>N. acquire_n k (HandlerToken s) \<noteq> None) \<and>
     acquire_n N (HandlerToken s) = Some c \<and>
     acquire c = None \<and>
     (0 < N \<longrightarrow> (\<exists>c'. release c = Some c' \<and> acquire c' \<noteq> None))"
proof -
  let ?h = "\<lparr>queue = replicate N (1::int), capacity = N\<rparr>"
  let ?s = "\<lparr>HandlerToken = ?h, Throttle = \<lparr>queue = [1::int], capacity = 1\<rparr>\<rparr>"
  let ?c = "\<lparr>queue = ([]::int list), capacity = N\<rparr>"
  have i: "init N = Some ?s" by (rule init_tokens)
  have a: "\<forall>k\<le>N. acquire_n k (HandlerToken ?s) \<noteq> None"
    by (simp add: acquire_n_available)
  have b: "acquire_n N (HandlerToken ?s) = Some ?c"
    by (simp add: acquire_n_available)
  have c: "acquire ?c = None" by (simp add: acquire_def chan_recv_def)
  have d: "0 < N \<longrightarrow> (\<exists>c'. release ?c = Some c' \<and> acquire c' \<noteq> None)"
    by (simp add: release_def chan_send_def acquire_def chan_recv_def)
  from i a b c d show ?thesis by blast
qed

theorem handler_tokens_backpressure_witness:
  "\<exists>s c. init 2 = Some s \<and>
     acquire_n 1 (HandlerToken s) \<noteq> None \<and>
     acquire_n 2 (HandlerToken s) = Some c \<and>
     acquire c = None \<and>
     (\<exists>c'. release c = Some c' \<and> acquire c' \<noteq> None)"
proof -
  have two: "(0::nat) < 2" and one: "(1::nat) \<le> 2" by simp_all
  from handler_tokens_backpressure [of 2]
  obtain s c where i: "init 2 = Some s"
    and a: "\<forall>k\<le>2. acquire_n k (HandlerToken s) \<noteq> None"
    and b: "acquire_n 2 (HandlerToken s) = Some c"
    and n: "acquire c = None"
    and r: "0 < (2::nat) \<longrightarrow> (\<exists>c'. release c = Some c' \<and> acquire c' \<noteq> None)"
    by (elim exE conjE)
  have a1: "acquire_n 1 (HandlerToken s) \<noteq> None" using a [rule_format, OF one] .
  have r1: "\<exists>c'. release c = Some c' \<and> acquire c' \<noteq> None" using r [rule_format, OF two] .
  show ?thesis
    by (intro exI [of _ s] exI [of _ c] conjI i a1 b n r1)
qed

section \<open>Key type checks of the decoders\<close>

lemma decoders_check_key_type:
  assumes "IndexFromKey key = Inr (t # rest)"
  shows "t \<noteq> KeyVoxelBlock \<Longrightarrow>
           DecodeVoxelBlockKey IndexFromKey IndexFromBytes key =
             Inl (Errorf ''Expected KeyVoxelBlock index, got %d byte instead'' [ArgByte t])"
    and "t \<noteq> KeySpatialMap \<Longrightarrow>
           DecodeSpatialMapKey IndexFromKey IndexZYXSize key =
             Inl (Errorf ''Expected KeySpatialMap index, got %d byte instead'' [ArgByte t])"
    and "t \<noteq> KeyLabelSpatialMap \<Longrightarrow>
           DecodeLabelSpatialMapKey IndexFromKey key =
             Inl (Errorf ''Expected KeyLabelSpatialMap index, got %d byte instead'' [ArgByte t])"
  using assms
  by (simp_all add: DecodeVoxelBlockKey_def DecodeSpatialMapKey_def DecodeLabelSpatialMapKey_def
      index_at_def)

lemma slice_go_Uint64:
  "17 \<le> length index \<Longrightarrow> \<exists>l. slice_go index 9 17 = Inr l \<and> length l = 8"
  by (simp add: slice_go_def)

lemma LabelFromLabelSizesKey_any_type:
  assumes "IndexFromKey key = Inr index" and "17 \<le> length index"
  shows "\<exists>label. LabelFromLabelSizesKey IndexFromKey key = Inr label"
proof -
  obtain l where l: "slice_go index 9 17 = Inr l" "length l = 8"
    using slice_go_Uint64 [OF assms(2)] by blast
  then show ?thesis
    using assms(1) by (simp add: LabelFromLabelSizesKey_def Uint64_def)
qed

text \<open>
  C2. Every decoder is to answer a key whose index starts with another key type by a
  key type mismatch error. \<open>DecodeVoxelBlockKey\<close>, \<open>DecodeSpatialMapKey\<close> and
  \<open>DecodeLabelSpatialMapKey\<close> do (\<open>decoders_check_key_type\<close>).
  \<open>LabelFromLabelSizesKey\<close> never looks at the first byte: given a forward map
  index, whose first byte is \<open>KeyForwardMap\<close>, it returns the mapping 2 as the
  label and no error, where \<open>DecodeLabelSpatialMapKey\<close> rejects the same index.
\<close>

theorem LabelFromLabelSizesKey_ignores_key_type:
  "NewForwardMapIndex [0, 0, 0, 0, 0, 0, 0, 1] 2 ! 0 = KeyForwardMap \<and>
   KeyForwardMap \<noteq> KeyLabelSizes \<and>
   LabelFromLabelSizesKey Inr (NewForwardMapIndex [0, 0, 0, 0, 0, 0, 0, 1] 2) = Inr 2 \<and>
   DecodeLabelSpatialMapKey Inr (NewForwardMapIndex [0, 0, 0, 0, 0, 0, 0, 1] 2) =
     Inl (Errorf ''Expected KeyLabelSpatialMap index, got %d byte instead'' [ArgByte 2])"
  by code_simp

section \<open>Identifiers and their bytes\<close>

lemma length_be16: "length (be16 v) = 2"
  by (simp add: be16_def)

lemma length_be32: "length (be32 v) = 4"
  by (simp add: be32_def)

lemma id_roundtrip:
  "LocalIDFromBytes (LocalID_Bytes a) = Inr (a, 2)"
  "LocalID32FromBytes (LocalID32_Bytes b) = Inr (b, 4)"
  "InstanceIDFromBytes (InstanceID_Bytes i) = Inr i"
  "RepoIDFromBytes (RepoID_Bytes r) = Inr r"
  "VersionIDFromBytes (VersionID_Bytes v) = Inr v"
  "length (LocalID_Bytes a) = 2"
  "length (LocalID32_Bytes b) = 4"
  "length (InstanceID_Bytes i) = 4"
  "length (RepoID_Bytes r) = 4"
  "length (VersionID_Bytes v) = 4"
  by (simp_all add: LocalIDFromBytes_def LocalID32FromBytes_def InstanceIDFromBytes_def
      RepoIDFromBytes_def VersionIDFromBytes_def LocalID_Bytes_def LocalID32_Bytes_def
      InstanceID_Bytes_def RepoID_Bytes_def VersionID_Bytes_def make_bytes_def
      LocalIDSize_def LocalID32Size_def Uint16_be16 Uint32_be32 length_be16 length_be32)

text \<open>
  C5. Every identifier decodes from its own bytes to itself (\<open>id_roundtrip\<close>).
  \<open>LocalIDFromBytes\<close> and \<open>LocalID32FromBytes\<close> also return the number of bytes
  used, 2 and 4. \<open>InstanceIDFromBytes\<close>, \<open>RepoIDFromBytes\<close> and
  \<open>VersionIDFromBytes\<close> return the identifier alone: on the 4 bytes 01 02 03 04 the
  result is the identifier 16909060 and no count.
\<close>

theorem id_decoders_results:
  "LocalIDFromBytes (LocalID_Bytes 258) = Inr (258, 2) \<and>
   LocalID32FromBytes (LocalID32_Bytes 16909060) = Inr (16909060, 4) \<and>
   InstanceID_Bytes 16909060 = [1, 2, 3, 4] \<and>
   InstanceIDFromBytes (InstanceID_Bytes 16909060) = Inr 16909060 \<and>
   RepoIDFromBytes (RepoID_Bytes 16909060) = Inr 16909060 \<and>
   VersionIDFromBytes (VersionID_Bytes 16909060) = Inr 16909060"
  by code_simp

end
